theory Spec2Isabelle
  imports Complex_Main "HOL-Library.Multiset"
begin

section \<open>Configuration\<close>

text \<open>
  The dataclass \<open>Config\<close> of \<open>app.py\<close>. Python integers are \<open>int\<close>; the float fields
  are modelled by exact rationals.
\<close>

record config =
  NUM_MEJA :: int
  MAHASISWA_PER_MEJA :: int
  PETUGAS_LAUK :: int
  PETUGAS_ANGKUT :: int
  PETUGAS_NASI :: int
  LAUK_MIN_TIME :: rat
  LAUK_MAX_TIME :: rat
  ANGKUT_MIN_TIME :: rat
  ANGKUT_MAX_TIME :: rat
  ANGKUT_MIN_LOAD :: int
  ANGKUT_MAX_LOAD :: int
  NASI_MIN_TIME :: rat
  NASI_MAX_TIME :: rat
  START_HOUR :: int
  START_MINUTE :: int
  RANDOM_SEED :: int

definition TOTAL_OMPRENG :: "config \<Rightarrow> int" where
  "TOTAL_OMPRENG c = NUM_MEJA c * MAHASISWA_PER_MEJA c"

datatype error = ValueError | KeyError | TypeError

section \<open>The random source\<close>

text \<open>
  The module-level generator of Python's \<open>random\<close>. Its algorithm is not part of the
  program, so a generator state is the sequence of values its next calls return: the
  \<open>k\<close>-th call returns \<open>floats k\<close> when it is \<open>random()\<close> and \<open>belows k n\<close> when it is
  \<open>_randbelow(n)\<close>; \<open>drawn\<close> counts the calls made so far.
\<close>

record rng =
  floats :: "nat \<Rightarrow> rat"
  belows :: "nat \<Rightarrow> nat \<Rightarrow> nat"
  drawn :: nat

definition random_random :: "rng \<Rightarrow> rat \<times> rng" where
  "random_random g = (floats g (drawn g), g\<lparr>drawn := drawn g + 1\<rparr>)"

definition randbelow :: "nat \<Rightarrow> rng \<Rightarrow> nat \<times> rng" where
  "randbelow n g = (belows g (drawn g) n, g\<lparr>drawn := drawn g + 1\<rparr>)"

text \<open>\<open>random.uniform(a, b)\<close> is \<open>a + (b - a) * random()\<close>.\<close>

definition uniform :: "rat \<Rightarrow> rat \<Rightarrow> rng \<Rightarrow> rat \<times> rng" where
  "uniform a b g = (case random_random g of (u, g') \<Rightarrow> (a + (b - a) * u, g'))"

text \<open>
  \<open>random.randint(a, b)\<close> is \<open>randrange(a, b + 1)\<close>, which raises \<open>ValueError\<close> on an
  empty range and returns \<open>a + _randbelow(b + 1 - a)\<close> otherwise.
\<close>

definition randint :: "int \<Rightarrow> int \<Rightarrow> rng \<Rightarrow> error + (int \<times> rng)" where
  "randint a b g =
     (if b + 1 - a > 0
      then (case randbelow (nat (b + 1 - a)) g of (r, g') \<Rightarrow> Inr (a + int r, g'))
      else Inl ValueError)"

section \<open>Work items, result records, processes and events\<close>

text \<open>
  The dictionary that travels through the pipeline (keys \<open>id\<close>, \<open>datang\<close>,
  \<open>mulai_lauk\<close>, \<open>selesai_lauk\<close> and, once transported, \<open>selesai_angkut\<close>).
\<close>

record item =
  i_id :: nat
  i_datang :: rat
  i_mulai_lauk :: rat
  i_selesai_lauk :: rat
  i_selesai_angkut :: "rat option"

text \<open>
  One row of \<open>self.data\<close>. \<open>jam_selesai\<close> is \<open>start_time + timedelta(seconds=selesai)\<close>,
  kept as microseconds since midnight of the start day (a \<open>timedelta\<close> rounds to whole
  microseconds, half to even).
\<close>

record row =
  r_id :: nat
  r_mulai_lauk :: rat
  r_selesai_lauk :: rat
  r_mulai_nasi :: rat
  r_selesai_nasi :: rat
  r_total_waktu :: rat
  r_jam_selesai :: int

text \<open>
  A generator suspended at a \<open>yield\<close>, with the local variables that are live there.
  \<open>G\<close>: \<open>generate\<close>; \<open>L\<close>: \<open>proses_ompreng\<close>; \<open>A\<close>: \<open>proses_angkut\<close>;
  \<open>N\<close>: \<open>proses_nasi\<close>. The \<open>init\<close> states are generators not yet started.
\<close>

datatype proc =
    G_init
  | G_loop nat
  | L_init nat
  | L_req nat rat
  | L_serv nat rat rat rat
  | L_put
  | A_init
  | A_poll
  | A_get "item list" nat
  | A_req "item list"
  | A_serv "item list" rat
  | A_put "item list"
  | N_init
  | N_poll
  | N_get
  | N_req item
  | N_serv item rat rat
  | Done

datatype res_id = RLauk | RAngkut | RNasi

datatype store_id = SLauk | SNasi

text \<open>
  The events of SimPy that the program creates. Every event names the process that waits
  for it; a \<open>Release\<close> has no waiting process, a \<open>Process\<close> event carries the exception
  the generator died of, if any.
\<close>

datatype event =
    EInit nat
  | ETimeout nat
  | ERequest res_id nat
  | ERelease res_id
  | EPut store_id nat
  | EGet store_id nat item
  | EProcess nat "error option"

record resource =
  capacity :: int
  users :: "nat list"
  put_queue :: "nat list"

record store =
  items :: "item list"
  get_queue :: "nat list"

type_synonym entry = "rat \<times> nat \<times> int \<times> event"

text \<open>
  A \<open>PiketOmprengDES\<close> object together with its \<open>simpy.Environment\<close> (clock, event
  queue, event counter, processes) and the global random generator.
\<close>

record model =
  cfg :: config
  now :: rat
  queue :: "entry list"
  eid :: int
  procs :: "proc list"
  petugas_lauk :: resource
  petugas_angkut :: resource
  petugas_nasi :: resource
  antrian_lauk :: store
  antrian_nasi :: store
  data :: "row list"
  completed :: int
  busy_lauk :: rat
  busy_angkut :: rat
  busy_nasi :: rat
  start_time :: int
  random :: rng

section \<open>The environment: event queue, resources, stores\<close>

definition URGENT :: nat where "URGENT = 0"
definition NORMAL :: nat where "NORMAL = 1"

text \<open>
  The queue is a heap of tuples \<open>(time, priority, eid, event)\<close>; it is kept here as the
  list in the order in which \<open>heappop\<close> returns the entries.
\<close>

fun entry_less :: "entry \<Rightarrow> entry \<Rightarrow> bool" where
  "entry_less (t1, p1, i1, _) (t2, p2, i2, _) =
     (t1 < t2 \<or> (t1 = t2 \<and> (p1 < p2 \<or> (p1 = p2 \<and> i1 < i2))))"

fun heappush :: "entry \<Rightarrow> entry list \<Rightarrow> entry list" where
  "heappush x [] = [x]"
| "heappush x (y # ys) = (if entry_less x y then x # y # ys else y # heappush x ys)"

definition schedule :: "event \<Rightarrow> nat \<Rightarrow> rat \<Rightarrow> model \<Rightarrow> model" where
  "schedule ev prio delay s =
     s\<lparr>queue := heappush (now s + delay, prio, eid s, ev) (queue s), eid := eid s + 1\<rparr>"

definition get_res :: "res_id \<Rightarrow> model \<Rightarrow> resource" where
  "get_res r s = (case r of RLauk \<Rightarrow> petugas_lauk s | RAngkut \<Rightarrow> petugas_angkut s
                  | RNasi \<Rightarrow> petugas_nasi s)"

definition set_res :: "res_id \<Rightarrow> resource \<Rightarrow> model \<Rightarrow> model" where
  "set_res r v s = (case r of RLauk \<Rightarrow> s\<lparr>petugas_lauk := v\<rparr>
                    | RAngkut \<Rightarrow> s\<lparr>petugas_angkut := v\<rparr>
                    | RNasi \<Rightarrow> s\<lparr>petugas_nasi := v\<rparr>)"

definition get_store :: "store_id \<Rightarrow> model \<Rightarrow> store" where
  "get_store st s = (case st of SLauk \<Rightarrow> antrian_lauk s | SNasi \<Rightarrow> antrian_nasi s)"

definition set_store :: "store_id \<Rightarrow> store \<Rightarrow> model \<Rightarrow> model" where
  "set_store st v s = (case st of SLauk \<Rightarrow> s\<lparr>antrian_lauk := v\<rparr>
                       | SNasi \<Rightarrow> s\<lparr>antrian_nasi := v\<rparr>)"

text \<open>
  \<open>Resource._trigger_put\<close>: only the first waiting request is looked at (\<open>_do_put\<close>
  returns \<open>None\<close>); it is granted when a slot is free.
\<close>

definition trigger_put :: "res_id \<Rightarrow> model \<Rightarrow> model" where
  "trigger_put r s =
     (case put_queue (get_res r s) of
        [] \<Rightarrow> s
      | w # ws \<Rightarrow>
          if int (length (users (get_res r s))) < capacity (get_res r s)
          then schedule (ERequest r w) NORMAL 0
                 (set_res r ((get_res r s)\<lparr>users := users (get_res r s) @ [w], put_queue := ws\<rparr>) s)
          else s)"

definition request :: "res_id \<Rightarrow> nat \<Rightarrow> model \<Rightarrow> model" where
  "request r pid s =
     trigger_put r (set_res r ((get_res r s)\<lparr>put_queue := put_queue (get_res r s) @ [pid]\<rparr>) s)"

text \<open>
  Leaving the \<open>with\<close> block: the request leaves \<open>users\<close> at once and a \<open>Release\<close>
  event is scheduled; waiting requests are served when that event is processed.
\<close>

definition release :: "res_id \<Rightarrow> nat \<Rightarrow> model \<Rightarrow> model" where
  "release r pid s =
     schedule (ERelease r) NORMAL 0
       (set_res r ((get_res r s)\<lparr>users := remove1 pid (users (get_res r s))\<rparr>) s)"

text \<open>\<open>Store.put\<close> on an unbounded store: the item is appended at once.\<close>

definition store_put :: "store_id \<Rightarrow> nat \<Rightarrow> item \<Rightarrow> model \<Rightarrow> model" where
  "store_put st pid it s =
     schedule (EPut st pid) NORMAL 0
       (set_store st ((get_store st s)\<lparr>items := items (get_store st s) @ [it]\<rparr>) s)"

text \<open>\<open>Store._trigger_get\<close>: the first waiting \<open>get\<close> takes the head item, if there is one.\<close>

definition trigger_get :: "store_id \<Rightarrow> model \<Rightarrow> model" where
  "trigger_get st s =
     (case get_queue (get_store st s) of
        [] \<Rightarrow> s
      | w # ws \<Rightarrow>
          (case items (get_store st s) of
             [] \<Rightarrow> s
           | it # its \<Rightarrow>
               schedule (EGet st w it) NORMAL 0
                 (set_store st ((get_store st s)\<lparr>items := its, get_queue := ws\<rparr>) s)))"

definition store_get :: "store_id \<Rightarrow> nat \<Rightarrow> model \<Rightarrow> model" where
  "store_get st pid s =
     trigger_get st
       (set_store st ((get_store st s)\<lparr>get_queue := get_queue (get_store st s) @ [pid]\<rparr>) s)"

definition set_proc :: "nat \<Rightarrow> proc \<Rightarrow> model \<Rightarrow> model" where
  "set_proc pid p s = s\<lparr>procs := (procs s)[pid := p]\<rparr>"

text \<open>\<open>env.process(gen)\<close>: a new process, started by an urgent \<open>Initialize\<close> event.\<close>

definition spawn :: "proc \<Rightarrow> model \<Rightarrow> model" where
  "spawn p s = schedule (EInit (length (procs s))) URGENT 0 (s\<lparr>procs := procs s @ [p]\<rparr>)"

text \<open>The generator returns: its \<open>Process\<close> event is scheduled.\<close>

definition finish :: "nat \<Rightarrow> model \<Rightarrow> model" where
  "finish pid s = schedule (EProcess pid None) NORMAL 0 (set_proc pid Done s)"

text \<open>The generator raises: its \<open>Process\<close> event is scheduled as failed.\<close>

definition fail :: "nat \<Rightarrow> error \<Rightarrow> model \<Rightarrow> model" where
  "fail pid e s = schedule (EProcess pid (Some e)) NORMAL 0 (set_proc pid Done s)"

text \<open>
  \<open>yield self.env.timeout(t)\<close> inside \<open>with resource.request()\<close>: a negative delay
  raises \<open>ValueError\<close>, the \<open>with\<close> block releases the resource and the process dies.
\<close>

definition serve :: "res_id \<Rightarrow> nat \<Rightarrow> rat \<Rightarrow> proc \<Rightarrow> model \<Rightarrow> model" where
  "serve r pid t p s =
     (if t < 0 then fail pid ValueError (release r pid s)
      else set_proc pid p (schedule (ETimeout pid) NORMAL t s))"

section \<open>The stage processes\<close>

definition waktu_lauk :: "model \<Rightarrow> rat \<times> rng" where
  "waktu_lauk s = uniform (LAUK_MIN_TIME (cfg s)) (LAUK_MAX_TIME (cfg s)) (random s)"

definition waktu_angkut :: "model \<Rightarrow> rat \<times> rng" where
  "waktu_angkut s = uniform (ANGKUT_MIN_TIME (cfg s)) (ANGKUT_MAX_TIME (cfg s)) (random s)"

definition waktu_nasi :: "model \<Rightarrow> rat \<times> rng" where
  "waktu_nasi s = uniform (NASI_MIN_TIME (cfg s)) (NASI_MAX_TIME (cfg s)) (random s)"

definition round_half_even :: "rat \<Rightarrow> int" where
  "round_half_even x =
     (let f = \<lfloor>x\<rfloor>; d = x - of_int f
      in if d < 1 / 2 then f else if d > 1 / 2 then f + 1 else if even f then f else f + 1)"

definition waktu_ke_jam :: "model \<Rightarrow> rat \<Rightarrow> int" where
  "waktu_ke_jam s detik = start_time s + round_half_even (detik * 1000000)"

text \<open>\<open>generate\<close>: the loop from the iteration with index \<open>i\<close> on.\<close>

definition generate_from :: "nat \<Rightarrow> nat \<Rightarrow> model \<Rightarrow> model" where
  "generate_from i pid s =
     (if int i < TOTAL_OMPRENG (cfg s)
      then set_proc pid (G_loop i) (schedule (ETimeout pid) NORMAL 0 (spawn (L_init i) s))
      else finish pid s)"

text \<open>\<open>proses_angkut\<close>, from the request of the transport resource on.\<close>

definition angkut_request :: "item list \<Rightarrow> nat \<Rightarrow> model \<Rightarrow> model" where
  "angkut_request batch pid s = set_proc pid (A_req batch) (request RAngkut pid s)"

text \<open>The \<open>for\<close> loop that fills the batch, with \<open>n\<close> iterations left.\<close>

definition angkut_drain :: "item list \<Rightarrow> nat \<Rightarrow> nat \<Rightarrow> model \<Rightarrow> model" where
  "angkut_drain batch n pid s =
     (case n of
        0 \<Rightarrow> angkut_request batch pid s
      | Suc k \<Rightarrow> set_proc pid (A_get batch k) (store_get SLauk pid s))"

text \<open>The head of the \<open>while\<close> loop of \<open>proses_angkut\<close>.\<close>

definition angkut_loop :: "nat \<Rightarrow> model \<Rightarrow> model" where
  "angkut_loop pid s =
     (if completed s < TOTAL_OMPRENG (cfg s)
      then if length (items (antrian_lauk s)) = 0
           then set_proc pid A_poll (schedule (ETimeout pid) NORMAL (1 / 2) s)
           else (case randint (ANGKUT_MIN_LOAD (cfg s)) (ANGKUT_MAX_LOAD (cfg s)) (random s) of
                   Inl e \<Rightarrow> fail pid e s
                 | Inr (kapasitas, g) \<Rightarrow>
                     angkut_drain []
                       (nat (min kapasitas (int (length (items (antrian_lauk s))))))
                       pid (s\<lparr>random := g\<rparr>))
      else finish pid s)"

text \<open>The \<open>for\<close> loop that stamps and hands over the batch, with \<open>rest\<close> left.\<close>

definition angkut_put :: "item list \<Rightarrow> nat \<Rightarrow> model \<Rightarrow> model" where
  "angkut_put rest pid s =
     (case rest of
        [] \<Rightarrow> angkut_loop pid s
      | it # r \<Rightarrow>
          set_proc pid (A_put r)
            (store_put SNasi pid (it\<lparr>i_selesai_angkut := Some (now s)\<rparr>) s))"

text \<open>The head of the \<open>while\<close> loop of \<open>proses_nasi\<close>.\<close>

definition nasi_loop :: "nat \<Rightarrow> model \<Rightarrow> model" where
  "nasi_loop pid s =
     (if completed s < TOTAL_OMPRENG (cfg s)
      then if length (items (antrian_nasi s)) = 0
           then set_proc pid N_poll (schedule (ETimeout pid) NORMAL (1 / 2) s)
           else set_proc pid N_get (store_get SNasi pid s)
      else finish pid s)"

definition make_row :: "model \<Rightarrow> item \<Rightarrow> rat \<Rightarrow> rat \<Rightarrow> row" where
  "make_row s it mulai_nasi selesai =
     \<lparr>r_id = i_id it, r_mulai_lauk = i_mulai_lauk it, r_selesai_lauk = i_selesai_lauk it,
      r_mulai_nasi = mulai_nasi, r_selesai_nasi = selesai,
      r_total_waktu = selesai - i_datang it, r_jam_selesai = waktu_ke_jam s selesai\<rparr>"

text \<open>
  A process is resumed with the value of the event it waited for (\<open>Some item\<close> for a
  \<open>get\<close>, \<open>None\<close> otherwise) and runs to its next \<open>yield\<close>.
\<close>

definition resume :: "nat \<Rightarrow> item option \<Rightarrow> model \<Rightarrow> model" where
  "resume pid v s =
     (if pid < length (procs s) then
        (case procs s ! pid of
           G_init \<Rightarrow> generate_from 0 pid s
         | G_loop i \<Rightarrow> generate_from (Suc i) pid s
         | L_init oid \<Rightarrow> set_proc pid (L_req oid (now s)) (request RLauk pid s)
         | L_req oid datang \<Rightarrow>
             (case waktu_lauk s of (t, g) \<Rightarrow>
                serve RLauk pid t (L_serv oid datang (now s) t) (s\<lparr>random := g\<rparr>))
         | L_serv oid datang mulai_lauk t \<Rightarrow>
             (let s1 = release RLauk pid s;
                  s2 = s1\<lparr>busy_lauk := busy_lauk s1 + t\<rparr>
              in set_proc pid L_put
                   (store_put SLauk pid
                      \<lparr>i_id = oid, i_datang = datang, i_mulai_lauk = mulai_lauk,
                       i_selesai_lauk = now s2, i_selesai_angkut = None\<rparr> s2))
         | L_put \<Rightarrow> finish pid s
         | A_init \<Rightarrow> angkut_loop pid s
         | A_poll \<Rightarrow> angkut_loop pid s
         | A_get batch k \<Rightarrow>
             (case v of
                None \<Rightarrow> fail pid TypeError s
              | Some it \<Rightarrow> angkut_drain (batch @ [it]) k pid s)
         | A_req batch \<Rightarrow>
             (case waktu_angkut s of (t, g) \<Rightarrow>
                serve RAngkut pid t (A_serv batch t) (s\<lparr>random := g\<rparr>))
         | A_serv batch t \<Rightarrow>
             (let s1 = release RAngkut pid s;
                  s2 = s1\<lparr>busy_angkut := busy_angkut s1 + t\<rparr>
              in angkut_put batch pid s2)
         | A_put rest \<Rightarrow> angkut_put rest pid s
         | N_init \<Rightarrow> nasi_loop pid s
         | N_poll \<Rightarrow> nasi_loop pid s
         | N_get \<Rightarrow>
             (case v of
                None \<Rightarrow> fail pid TypeError s
              | Some it \<Rightarrow> set_proc pid (N_req it) (request RNasi pid s))
         | N_req it \<Rightarrow>
             (case waktu_nasi s of (t, g) \<Rightarrow>
                serve RNasi pid t (N_serv it (now s) t) (s\<lparr>random := g\<rparr>))
         | N_serv it mulai_nasi t \<Rightarrow>
             (let s1 = release RNasi pid s;
                  s2 = s1\<lparr>busy_nasi := busy_nasi s1 + t\<rparr>;
                  selesai = now s2;
                  s3 = s2\<lparr>data := data s2 @ [make_row s2 it mulai_nasi selesai]\<rparr>;
                  s4 = s3\<lparr>completed := completed s3 + 1\<rparr>
              in nasi_loop pid s4)
         | Done \<Rightarrow> s)
      else s)"

section \<open>The scheduler\<close>

text \<open>
  Processing an event runs its callbacks in the order they were attached: first the one
  of the resource or store, then the waiting process.
\<close>

definition fire :: "event \<Rightarrow> model \<Rightarrow> error + model" where
  "fire ev s =
     (case ev of
        EInit pid \<Rightarrow> Inr (resume pid None s)
      | ETimeout pid \<Rightarrow> Inr (resume pid None s)
      | ERequest r pid \<Rightarrow> Inr (resume pid None s)
      | ERelease r \<Rightarrow> Inr (trigger_put r s)
      | EPut st pid \<Rightarrow> Inr (resume pid None (trigger_get st s))
      | EGet st pid it \<Rightarrow> Inr (resume pid (Some it) s)
      | EProcess pid None \<Rightarrow> Inr s
      | EProcess pid (Some e) \<Rightarrow> Inl e)"

text \<open>\<open>Environment.step\<close>: pop the next event, move the clock, process the event.\<close>

definition step :: "model \<Rightarrow> error + model" where
  "step s =
     (case queue s of
        [] \<Rightarrow> Inr s
      | (t, p, i, ev) # q \<Rightarrow> fire ev (s\<lparr>now := t, queue := q\<rparr>))"

text \<open>\<open>Environment.run()\<close>: step until the queue is empty or an event has failed.\<close>

partial_function (option) env_run :: "model \<Rightarrow> (error + model) option" where
  "env_run s =
     (if queue s = [] then Some (Inr s)
      else (case step s of Inl e \<Rightarrow> Some (Inl e) | Inr s' \<Rightarrow> env_run s'))"

declare env_run.simps [code]

section \<open>Construction, run and analysis\<close>

definition new_resource :: "int \<Rightarrow> error + resource" where
  "new_resource c =
     (if c \<le> 0 then Inl ValueError
      else Inr \<lparr>capacity = c, users = [], put_queue = []\<rparr>)"

definition new_store :: store where
  "new_store = \<lparr>items = [], get_queue = []\<rparr>"

text \<open>\<open>datetime(2024, 1, 1, hour, minute)\<close>, in microseconds since midnight.\<close>

definition datetime_2024_1_1 :: "int \<Rightarrow> int \<Rightarrow> error + int" where
  "datetime_2024_1_1 h m =
     (if 0 \<le> h \<and> h \<le> 23 \<and> 0 \<le> m \<and> m \<le> 59
      then Inr ((h * 3600 + m * 60) * 1000000) else Inl ValueError)"

text \<open>
  \<open>np.random.seed(x)\<close> accepts the integers from 0 to \<open>2^32 - 1\<close> and raises
  \<open>ValueError\<close> for every other; \<open>random.seed\<close> accepts every integer.
\<close>

definition np_random_seed :: "int \<Rightarrow> error + unit" where
  "np_random_seed x = (if 0 \<le> x \<and> x \<le> 4294967295 then Inr () else Inl ValueError)"

text \<open>
  \<open>PiketOmprengDES.__init__\<close>. \<open>seed\<close> is what \<open>random.seed\<close> sets the generator to;
  the state \<open>g0\<close> the global generator had before is overwritten.
\<close>

definition init :: "(int \<Rightarrow> rng) \<Rightarrow> config \<Rightarrow> rng \<Rightarrow> error + model" where
  "init seed c g0 =
     (case new_resource (PETUGAS_LAUK c) of
        Inl e \<Rightarrow> Inl e
      | Inr rl \<Rightarrow>
     (case new_resource (PETUGAS_ANGKUT c) of
        Inl e \<Rightarrow> Inl e
      | Inr ra \<Rightarrow>
     (case new_resource (PETUGAS_NASI c) of
        Inl e \<Rightarrow> Inl e
      | Inr rn \<Rightarrow>
     (case datetime_2024_1_1 (START_HOUR c) (START_MINUTE c) of
        Inl e \<Rightarrow> Inl e
      | Inr st \<Rightarrow>
     (case np_random_seed (RANDOM_SEED c) of
        Inl e \<Rightarrow> Inl e
      | Inr u \<Rightarrow>
          Inr \<lparr>cfg = c, now = 0, queue = [], eid = 0, procs = [],
               petugas_lauk = rl, petugas_angkut = ra, petugas_nasi = rn,
               antrian_lauk = new_store, antrian_nasi = new_store,
               data = [], completed = 0, busy_lauk = 0, busy_angkut = 0, busy_nasi = 0,
               start_time = st, random = seed (RANDOM_SEED c)\<rparr>)))))"

datatype pyval = PyFloat rat | PyInt int

text \<open>
  \<open>analyze_results\<close>, as a function of \<open>self.data\<close>, the only attribute it reads.
  The data frame built from an empty list has no columns, so \<open>df["total_waktu"]\<close>
  raises \<open>KeyError\<close>.
\<close>

definition analyze_results :: "row list \<Rightarrow> error + ((string \<times> pyval) list \<times> row list)" where
  "analyze_results df =
     (if df = [] then Inl KeyError
      else
        (let total_time = Max (set (map r_total_waktu df))
         in Inr ([(''durasi_total_detik'', PyFloat total_time),
                  (''avg_total_time'',
                     PyFloat (sum_list (map r_total_waktu df) / of_nat (length df))),
                  (''total_ompreng'', PyInt (int (length df)))],
                 df)))"

text \<open>The three \<open>env.process\<close> calls of \<open>run\<close>.\<close>

definition start :: "model \<Rightarrow> model" where
  "start s = spawn N_init (spawn A_init (spawn G_init s))"

text \<open>\<open>run\<close>; \<open>None\<close> when the scheduler never runs out of events.\<close>

definition run :: "model \<Rightarrow> (error + ((string \<times> pyval) list \<times> row list)) option" where
  "run s =
     (case env_run (start s) of
        None \<Rightarrow> None
      | Some (Inl e) \<Rightarrow> Some (Inl e)
      | Some (Inr s') \<Rightarrow> Some (analyze_results (data s')))"

section \<open>The caller, sample configurations and sample generators\<close>

text \<open>
  What the caller does: \<open>model = PiketOmprengDES(config); results, df = model.run()\<close>.
  \<open>g0\<close> is the state of the global generator before the construction.
\<close>

definition simulate ::
  "(int \<Rightarrow> rng) \<Rightarrow> config \<Rightarrow> rng \<Rightarrow> (error + ((string \<times> pyval) list \<times> row list)) option" where
  "simulate seed c g0 = (case init seed c g0 of Inl e \<Rightarrow> Some (Inl e) | Inr s \<Rightarrow> run s)"


definition table_of ::
  "(error + ((string \<times> pyval) list \<times> row list)) option \<Rightarrow> row list" where
  "table_of r = (case r of Some (Inr (res, df)) \<Rightarrow> df | _ \<Rightarrow> [])"

definition aggregates_of ::
  "(error + ((string \<times> pyval) list \<times> row list)) option \<Rightarrow> (string \<times> pyval) list" where
  "aggregates_of r = (case r of Some (Inr (res, df)) \<Rightarrow> res | _ \<Rightarrow> [])"

text \<open>The default values of the dataclass.\<close>

definition default_config :: config where
  "default_config =
     \<lparr>NUM_MEJA = 60, MAHASISWA_PER_MEJA = 3, PETUGAS_LAUK = 3, PETUGAS_ANGKUT = 2,
      PETUGAS_NASI = 2, LAUK_MIN_TIME = 30, LAUK_MAX_TIME = 60, ANGKUT_MIN_TIME = 20,
      ANGKUT_MAX_TIME = 60, ANGKUT_MIN_LOAD = 4, ANGKUT_MAX_LOAD = 7, NASI_MIN_TIME = 30,
      NASI_MAX_TIME = 60, START_HOUR = 7, START_MINUTE = 0, RANDOM_SEED = 42\<rparr>"

text \<open>The degenerate configuration of the scenario: six units, one server per stage.\<close>

definition scenario :: config where
  "scenario =
     \<lparr>NUM_MEJA = 6, MAHASISWA_PER_MEJA = 1, PETUGAS_LAUK = 1, PETUGAS_ANGKUT = 1,
      PETUGAS_NASI = 1, LAUK_MIN_TIME = 10, LAUK_MAX_TIME = 10, ANGKUT_MIN_TIME = 5,
      ANGKUT_MAX_TIME = 5, ANGKUT_MIN_LOAD = 6, ANGKUT_MAX_LOAD = 6, NASI_MIN_TIME = 5,
      NASI_MAX_TIME = 5, START_HOUR = 7, START_MINUTE = 0, RANDOM_SEED = 42\<rparr>"

text \<open>The table the code produces for the scenario.\<close>

definition scenario_rows :: "row list" where
  "scenario_rows =
     [\<lparr>r_id = 0, r_mulai_lauk = 0, r_selesai_lauk = 10, r_mulai_nasi = 15,
        r_selesai_nasi = 20, r_total_waktu = 20, r_jam_selesai = 25220000000\<rparr>,
      \<lparr>r_id = 1, r_mulai_lauk = 10, r_selesai_lauk = 20, r_mulai_nasi = 25,
        r_selesai_nasi = 30, r_total_waktu = 30, r_jam_selesai = 25230000000\<rparr>,
      \<lparr>r_id = 2, r_mulai_lauk = 20, r_selesai_lauk = 30, r_mulai_nasi = 35,
        r_selesai_nasi = 40, r_total_waktu = 40, r_jam_selesai = 25240000000\<rparr>,
      \<lparr>r_id = 3, r_mulai_lauk = 30, r_selesai_lauk = 40, r_mulai_nasi = 45,
        r_selesai_nasi = 50, r_total_waktu = 50, r_jam_selesai = 25250000000\<rparr>,
      \<lparr>r_id = 4, r_mulai_lauk = 40, r_selesai_lauk = 50, r_mulai_nasi = 55,
        r_selesai_nasi = 60, r_total_waktu = 60, r_jam_selesai = 25260000000\<rparr>,
      \<lparr>r_id = 5, r_mulai_lauk = 50, r_selesai_lauk = 60, r_mulai_nasi = 65,
        r_selesai_nasi = 70, r_total_waktu = 70, r_jam_selesai = 25270000000\<rparr>]"



text \<open>The default configuration with no tables, hence no units.\<close>

definition zero_units :: config where
  "zero_units = default_config\<lparr>NUM_MEJA := 0\<rparr>"

text \<open>A generator whose every draw is the least possible value.\<close>

definition rng0 :: rng where
  "rng0 = \<lparr>floats = (\<lambda>k. 0), belows = (\<lambda>k n. 0), drawn = 0\<rparr>"

definition seed0 :: "int \<Rightarrow> rng" where
  "seed0 x = rng0"

text \<open>The generators started by \<open>proses_angkut\<close> and by \<open>proses_nasi\<close>.\<close>

fun is_angkut :: "proc \<Rightarrow> bool" where
  "is_angkut A_init = True"
| "is_angkut A_poll = True"
| "is_angkut (A_get batch k) = True"
| "is_angkut (A_req batch) = True"
| "is_angkut (A_serv batch t) = True"
| "is_angkut (A_put rest) = True"
| "is_angkut p = False"

fun is_nasi :: "proc \<Rightarrow> bool" where
  "is_nasi N_init = True"
| "is_nasi N_poll = True"
| "is_nasi N_get = True"
| "is_nasi (N_req it) = True"
| "is_nasi (N_serv it mulai_nasi t) = True"
| "is_nasi p = False"

text \<open>The number of worker loops of one kind among the processes \<open>run\<close> starts.\<close>

definition worker_loops :: "(proc \<Rightarrow> bool) \<Rightarrow> error + model \<Rightarrow> nat" where
  "worker_loops P m = (case m of Inl e \<Rightarrow> 0 | Inr s \<Rightarrow> length (filter P (procs (start s))))"

text \<open>
  The scheduler states of a run: the state \<open>run\<close> hands to \<open>env.run()\<close> and every state
  a step of the scheduler leads to.
\<close>

inductive reachable :: "model \<Rightarrow> model \<Rightarrow> bool" for s0 :: model where
  reachable_start: "reachable s0 (start s0)"
| reachable_step: "reachable s0 s \<Longrightarrow> queue s \<noteq> [] \<Longrightarrow> step s = Inr s' \<Longrightarrow> reachable s0 s'"

section \<open>Invariants of the scheduler\<close>

fun is_gen :: "proc \<Rightarrow> bool" where
  "is_gen G_init = True"
| "is_gen (G_loop i) = True"
| "is_gen p = False"

fun is_lauk :: "proc \<Rightarrow> bool" where
  "is_lauk (L_init oid) = True"
| "is_lauk (L_req oid datang) = True"
| "is_lauk (L_serv oid datang mulai_lauk t) = True"
| "is_lauk L_put = True"
| "is_lauk p = False"

text \<open>
  The processes are numbered in the order \<open>env.process\<close> creates them: \<open>generate\<close> is 0,
  the transport loop 1, the finish loop 2, and the units follow.
\<close>

definition fits :: "nat \<Rightarrow> proc \<Rightarrow> bool" where
  "fits pid p =
     (p = Done \<or>
      (if pid = 0 then is_gen p else if pid = 1 then is_angkut p
       else if pid = 2 then is_nasi p else is_lauk p))"

definition slots_ok :: "model \<Rightarrow> bool" where
  "slots_ok s = (3 \<le> length (procs s) \<and> (\<forall>pid < length (procs s). fits pid (procs s ! pid)))"

text \<open>The timestamps an item carries are in order and not later than \<open>n\<close>.\<close>

definition stamped :: "rat \<Rightarrow> item \<Rightarrow> bool" where
  "stamped n it =
     (i_datang it \<le> i_mulai_lauk it \<and> i_mulai_lauk it \<le> i_selesai_lauk it \<and>
      i_selesai_lauk it \<le> n \<and>
      (case i_selesai_angkut it of None \<Rightarrow> True | Some a \<Rightarrow> i_selesai_lauk it \<le> a \<and> a \<le> n))"

text \<open>The same for an item that has been transported.\<close>

definition moved :: "rat \<Rightarrow> item \<Rightarrow> bool" where
  "moved n it = (stamped n it \<and> i_selesai_angkut it \<noteq> None)"

fun proc_ok :: "rat \<Rightarrow> proc \<Rightarrow> bool" where
  "proc_ok n (L_req oid datang) = (datang \<le> n)"
| "proc_ok n (L_serv oid datang mulai_lauk t) = (datang \<le> mulai_lauk \<and> mulai_lauk \<le> n)"
| "proc_ok n (A_get batch k) = list_all (stamped n) batch"
| "proc_ok n (A_req batch) = list_all (stamped n) batch"
| "proc_ok n (A_serv batch t) = list_all (stamped n) batch"
| "proc_ok n (A_put rest) = list_all (stamped n) rest"
| "proc_ok n (N_req it) = moved n it"
| "proc_ok n (N_serv it mulai_nasi t) = (moved mulai_nasi it \<and> mulai_nasi \<le> n)"
| "proc_ok n p = True"

fun event_ok :: "rat \<Rightarrow> event \<Rightarrow> bool" where
  "event_ok n (EGet SLauk pid it) = (stamped n it \<and> pid = 1)"
| "event_ok n (EGet SNasi pid it) = moved n it"
| "event_ok n ev = True"

definition row_ok :: "row \<Rightarrow> bool" where
  "row_ok r =
     (r_selesai_nasi r - r_total_waktu r \<le> r_mulai_lauk r \<and>
      r_mulai_lauk r \<le> r_selesai_lauk r \<and> r_selesai_lauk r \<le> r_mulai_nasi r \<and>
      r_mulai_nasi r \<le> r_selesai_nasi r)"

definition entry_ok :: "rat \<Rightarrow> entry \<Rightarrow> bool" where
  "entry_ok n e = (case e of (t, p, i, ev) \<Rightarrow> n \<le> t \<and> event_ok n ev)"

definition entry_time_le :: "entry \<Rightarrow> entry \<Rightarrow> bool" where
  "entry_time_le a b = (fst a \<le> fst b)"

definition times_ok :: "model \<Rightarrow> bool" where
  "times_ok s =
     (list_all (entry_ok (now s)) (queue s) \<and>
      sorted_wrt entry_time_le (queue s) \<and>
      list_all (proc_ok (now s)) (procs s) \<and>
      list_all (stamped (now s)) (items (antrian_lauk s)) \<and>
      list_all (\<lambda>w. w = 1) (get_queue (antrian_lauk s)) \<and>
      list_all (moved (now s)) (items (antrian_nasi s)) \<and>
      list_all row_ok (data s))"

text \<open>The contract of \<open>_randbelow(n)\<close>: a value below \<open>n\<close>.\<close>

definition rng_ok :: "rng \<Rightarrow> bool" where
  "rng_ok g = (\<forall>k n. 0 < n \<longrightarrow> belows g k n < n)"




section \<open>Evaluating runs\<close>

lemmas model_defs = init_def start_def spawn_def schedule_def step_def fire_def resume_def
  generate_from_def finish_def fail_def serve_def set_proc_def request_def release_def
  trigger_put_def trigger_get_def store_put_def store_get_def get_res_def set_res_def
  get_store_def set_store_def angkut_loop_def angkut_drain_def angkut_request_def
  angkut_put_def nasi_loop_def make_row_def waktu_lauk_def waktu_angkut_def waktu_nasi_def
  uniform_def random_random_def randint_def randbelow_def new_resource_def new_store_def
  datetime_2024_1_1_def np_random_seed_def URGENT_def NORMAL_def waktu_ke_jam_def round_half_even_def

lemma scenario_simps:
  "NUM_MEJA scenario = 6" "MAHASISWA_PER_MEJA scenario = 1" "PETUGAS_LAUK scenario = 1"
  "PETUGAS_ANGKUT scenario = 1" "PETUGAS_NASI scenario = 1" "LAUK_MIN_TIME scenario = 10"
  "LAUK_MAX_TIME scenario = 10" "ANGKUT_MIN_TIME scenario = 5" "ANGKUT_MAX_TIME scenario = 5"
  "ANGKUT_MIN_LOAD scenario = 6" "ANGKUT_MAX_LOAD scenario = 6" "NASI_MIN_TIME scenario = 5"
  "NASI_MAX_TIME scenario = 5" "START_HOUR scenario = 7" "START_MINUTE scenario = 0"
  "RANDOM_SEED scenario = 42"
  by (simp_all add: scenario_def)

text \<open>
  The scenario, run step by step. Its durations are degenerate, so the outcome is the same
  for every generator.
\<close>

lemma scenario_eval:
  "(case init seed scenario g0 of
      Inl e \<Rightarrow> ([], 0, 0, 0, 0)
    | Inr s \<Rightarrow>
        (case env_run (start s) of
           Some (Inr s') \<Rightarrow> (data s', busy_lauk s', busy_angkut s', busy_nasi s', completed s')
         | _ \<Rightarrow> ([], 0, 0, 0, 0)))
   = (scenario_rows, 60, 30, 30, 6)"
  by (simp add: model_defs TOTAL_OMPRENG_def env_run.simps scenario_simps scenario_rows_def)

lemma scenario_final:
  "\<exists>s s'. init seed scenario g0 = Inr s \<and> env_run (start s) = Some (Inr s') \<and>
     data s' = scenario_rows \<and> busy_lauk s' = 60 \<and> busy_angkut s' = 30 \<and>
     busy_nasi s' = 30 \<and> completed s' = 6"
  using scenario_eval [of seed g0]
  by (auto simp: scenario_rows_def split: sum.splits option.splits)

lemma scenario_aggregates:
  "analyze_results scenario_rows =
     Inr ([(''durasi_total_detik'', PyFloat 70), (''avg_total_time'', PyFloat 45),
           (''total_ompreng'', PyInt 6)], scenario_rows)"
  by (simp add: analyze_results_def scenario_rows_def)

lemma scenario_simulate:
  "simulate seed scenario g0 =
     Some (Inr ([(''durasi_total_detik'', PyFloat 70), (''avg_total_time'', PyFloat 45),
           (''total_ompreng'', PyInt 6)], scenario_rows))"
proof -
  obtain s s' where "init seed scenario g0 = Inr s" "env_run (start s) = Some (Inr s')"
    "data s' = scenario_rows"
    using scenario_final [of seed g0] by blast
  then show ?thesis
    by (simp add: simulate_def run_def scenario_aggregates)
qed


lemma init_InrD:
  assumes "init seed c g0 = Inr s"
  shows "s = \<lparr>cfg = c, now = 0, queue = [], eid = 0, procs = [],
               petugas_lauk = \<lparr>capacity = PETUGAS_LAUK c, users = [], put_queue = []\<rparr>,
               petugas_angkut = \<lparr>capacity = PETUGAS_ANGKUT c, users = [], put_queue = []\<rparr>,
               petugas_nasi = \<lparr>capacity = PETUGAS_NASI c, users = [], put_queue = []\<rparr>,
               antrian_lauk = new_store, antrian_nasi = new_store,
               data = [], completed = 0, busy_lauk = 0, busy_angkut = 0, busy_nasi = 0,
               start_time = (START_HOUR c * 3600 + START_MINUTE c * 60) * 1000000,
               random = seed (RANDOM_SEED c)\<rparr>"
    and "0 < PETUGAS_LAUK c" and "0 < PETUGAS_ANGKUT c" and "0 < PETUGAS_NASI c"
  using assms
  by (auto simp: init_def new_resource_def datetime_2024_1_1_def np_random_seed_def split: if_splits)

section \<open>The scenario of the specification\<close>

text \<open>
  C1 (corrected). For the degenerate configuration (six units, one server per stage,
  preparation 10, transport 5, batch range 6 to 6, finish 5) with the fixed seed 42, whatever
  values the seeded generator returns, the run completes
  all six units with \<open>prep_end\<close> 10, 20, 30, 40, 50, 60. The transport stage does not wait
  for six units: it takes what is in the queue when it polls, so every unit travels alone
  and the transport stage is busy for six trips of 5 (30 in total). The finish stage starts
  the units at 15, 25, 35, 45, 55, 65 and completes them at 20, 30, 40, 50, 60, 70.
\<close>

theorem scenario_actual:
  "\<exists>s s'. init seed scenario g0 = Inr s \<and> env_run (start s) = Some (Inr s') \<and>
     map r_id (data s') = [0, 1, 2, 3, 4, 5] \<and>
     map r_selesai_lauk (data s') = [10, 20, 30, 40, 50, 60] \<and>
     map r_mulai_nasi (data s') = [15, 25, 35, 45, 55, 65] \<and>
     map r_selesai_nasi (data s') = [20, 30, 40, 50, 60, 70] \<and>
     busy_angkut s' = 6 * 5 \<and> completed s' = 6 \<and>
     table_of (simulate seed scenario g0) = data s'"
proof -
  obtain s s' where h: "init seed scenario g0 = Inr s" "env_run (start s) = Some (Inr s')"
    "data s' = scenario_rows" "busy_angkut s' = 30" "completed s' = 6"
    using scenario_final [of seed g0] by blast
  have "table_of (simulate seed scenario g0) = data s'"
    using h by (simp add: scenario_simulate table_of_def)
  moreover have "map r_id (data s') = [0, 1, 2, 3, 4, 5]"
    "map r_selesai_lauk (data s') = [10, 20, 30, 40, 50, 60]"
    "map r_mulai_nasi (data s') = [15, 25, 35, 45, 55, 65]"
    "map r_selesai_nasi (data s') = [20, 30, 40, 50, 60, 70]"
    using h by (simp_all add: scenario_rows_def)
  ultimately show ?thesis
    using h by auto
qed

text \<open>
  C1, the claim as stated fails: with the generator \<open>rng0\<close> the completion times are
  20, 30, 40, 50, 60, 70 and not 70, 75, 80, 85, 90, 95.
\<close>

theorem scenario_claimed_times_counterexample:
  "map r_selesai_nasi (table_of (simulate seed0 scenario rng0)) = [20, 30, 40, 50, 60, 70]
   \<and> map r_selesai_nasi (table_of (simulate seed0 scenario rng0)) \<noteq> [70, 75, 80, 85, 90, 95]"
  by (simp add: scenario_simulate table_of_def scenario_rows_def)

section \<open>What \<open>run\<close> starts\<close>

text \<open>
  \<open>run\<close> starts exactly three processes at time 0: \<open>generate\<close>, one \<open>proses_angkut\<close>
  loop and one \<open>proses_nasi\<close> loop, whatever \<open>PETUGAS_ANGKUT\<close> and \<open>PETUGAS_NASI\<close>
  are; these two counts only become the capacities of two resources that a single loop each
  requests.
\<close>

lemma run_starts_one_loop_per_stage:
  "init seed c g0 = Inr s \<Longrightarrow>
   procs (start s) = [G_init, A_init, N_init] \<and>
   map (\<lambda>(t, p, i, ev). (t, ev)) (queue (start s)) = [(0, EInit 0), (0, EInit 1), (0, EInit 2)] \<and>
   capacity (petugas_angkut (start s)) = PETUGAS_ANGKUT c \<and>
   capacity (petugas_nasi (start s)) = PETUGAS_NASI c"
  by (drule init_InrD(1)) (simp add: start_def spawn_def schedule_def URGENT_def)

text \<open>
  C2 (defect of the code). The default configuration has two transport servers and two
  finish servers, and \<open>run\<close> starts one transport loop and one finish loop: the pools the
  claim describes are not spawned.
\<close>

theorem default_run_starts_single_loops:
  "PETUGAS_ANGKUT default_config = 2 \<and> PETUGAS_NASI default_config = 2 \<and>
   worker_loops is_angkut (init seed0 default_config rng0) = 1 \<and>
   worker_loops is_nasi (init seed0 default_config rng0) = 1"
  by (simp add: worker_loops_def init_def new_resource_def datetime_2024_1_1_def
      np_random_seed_def default_config_def start_def spawn_def schedule_def)

section \<open>The aggregates\<close>

text \<open>
  C5 (corrected). The aggregates of a run are three: the largest total time, the mean total
  time and the number of rows. No utilization is among them.
\<close>

theorem analyze_results_aggregates:
  "df \<noteq> [] \<Longrightarrow>
   analyze_results df =
     Inr ([(''durasi_total_detik'', PyFloat (Max (set (map r_total_waktu df)))),
           (''avg_total_time'', PyFloat (sum_list (map r_total_waktu df) / of_nat (length df))),
           (''total_ompreng'', PyInt (int (length df)))], df)"
  by (simp add: analyze_results_def)

theorem analyze_results_aggregates_witness:
  "scenario_rows \<noteq> [] \<and>
   analyze_results scenario_rows =
     Inr ([(''durasi_total_detik'', PyFloat 70), (''avg_total_time'', PyFloat 45),
           (''total_ompreng'', PyInt 6)], scenario_rows)"
proof -
  have h: "scenario_rows \<noteq> []"
    by (simp add: scenario_rows_def)
  show ?thesis
    using analyze_results_aggregates [OF h] h by (simp add: scenario_rows_def)
qed

text \<open>
  C5, the claim as stated fails: the aggregates of the scenario run have exactly these
  three keys.
\<close>

theorem utilization_counterexample:
  "map fst (aggregates_of (simulate seed0 scenario rng0)) =
     [''durasi_total_detik'', ''avg_total_time'', ''total_ompreng'']"
  by (simp add: scenario_simulate aggregates_of_def)

section \<open>Rejected and accepted configurations\<close>



section \<open>No units\<close>

text \<open>
  C6 (corrected). With zero total units the scheduler runs out of events with an empty
  record list and a completed count of 0, and \<open>analyze_results\<close> then raises
  \<open>KeyError\<close>: \<open>run\<close> returns no table and no aggregates.
\<close>

theorem zero_units_run:
  "TOTAL_OMPRENG c = 0 \<Longrightarrow> init seed c g0 = Inr s \<Longrightarrow>
   (\<exists>s'. env_run (start s) = Some (Inr s') \<and> data s' = [] \<and> completed s' = 0) \<and>
   run s = Some (Inl KeyError)"
  by (drule init_InrD(1))
    (simp add: run_def model_defs env_run.simps analyze_results_def)

theorem zero_units_run_witness:
  "TOTAL_OMPRENG zero_units = 0 \<and>
   (\<exists>s. init seed0 zero_units rng0 = Inr s \<and>
     (\<exists>s'. env_run (start s) = Some (Inr s') \<and> data s' = [] \<and> completed s' = 0) \<and>
     run s = Some (Inl KeyError))"
proof -
  have t: "TOTAL_OMPRENG zero_units = 0"
    by (simp add: TOTAL_OMPRENG_def zero_units_def)
  obtain s where h: "init seed0 zero_units rng0 = Inr s"
    by (simp add: init_def new_resource_def datetime_2024_1_1_def np_random_seed_def zero_units_def
        default_config_def)
  show ?thesis
    using zero_units_run [OF t h] t h by blast
qed

text \<open>C6, the claim as stated fails: the caller gets \<open>KeyError\<close>.\<close>

theorem zero_units_counterexample:
  "simulate seed0 zero_units rng0 = Some (Inl KeyError)"
  by (simp add: simulate_def run_def model_defs TOTAL_OMPRENG_def env_run.simps
      zero_units_def default_config_def analyze_results_def seed0_def rng0_def)

section \<open>Determinism\<close>




section \<open>What the operations leave unchanged\<close>


lemmas prim_defs = schedule_def set_res_def set_store_def get_res_def get_store_def
  trigger_put_def request_def release_def store_put_def trigger_get_def store_get_def
  set_proc_def spawn_def finish_def fail_def serve_def

lemma frame_static [simp]:
  "cfg (schedule ev p d s) = cfg s"
  "now (schedule ev p d s) = now s"
  "data (schedule ev p d s) = data s"
  "completed (schedule ev p d s) = completed s"
  "busy_lauk (schedule ev p d s) = busy_lauk s"
  "busy_angkut (schedule ev p d s) = busy_angkut s"
  "busy_nasi (schedule ev p d s) = busy_nasi s"
  "start_time (schedule ev p d s) = start_time s"
  "random (schedule ev p d s) = random s"
  "cfg (set_res r v s) = cfg s"
  "now (set_res r v s) = now s"
  "data (set_res r v s) = data s"
  "completed (set_res r v s) = completed s"
  "busy_lauk (set_res r v s) = busy_lauk s"
  "busy_angkut (set_res r v s) = busy_angkut s"
  "busy_nasi (set_res r v s) = busy_nasi s"
  "start_time (set_res r v s) = start_time s"
  "random (set_res r v s) = random s"
  "cfg (set_store st w s) = cfg s"
  "now (set_store st w s) = now s"
  "data (set_store st w s) = data s"
  "completed (set_store st w s) = completed s"
  "busy_lauk (set_store st w s) = busy_lauk s"
  "busy_angkut (set_store st w s) = busy_angkut s"
  "busy_nasi (set_store st w s) = busy_nasi s"
  "start_time (set_store st w s) = start_time s"
  "random (set_store st w s) = random s"
  "cfg (trigger_put r s) = cfg s"
  "now (trigger_put r s) = now s"
  "data (trigger_put r s) = data s"
  "completed (trigger_put r s) = completed s"
  "busy_lauk (trigger_put r s) = busy_lauk s"
  "busy_angkut (trigger_put r s) = busy_angkut s"
  "busy_nasi (trigger_put r s) = busy_nasi s"
  "start_time (trigger_put r s) = start_time s"
  "random (trigger_put r s) = random s"
  "cfg (request r pid s) = cfg s"
  "now (request r pid s) = now s"
  "data (request r pid s) = data s"
  "completed (request r pid s) = completed s"
  "busy_lauk (request r pid s) = busy_lauk s"
  "busy_angkut (request r pid s) = busy_angkut s"
  "busy_nasi (request r pid s) = busy_nasi s"
  "start_time (request r pid s) = start_time s"
  "random (request r pid s) = random s"
  "cfg (release r pid s) = cfg s"
  "now (release r pid s) = now s"
  "data (release r pid s) = data s"
  "completed (release r pid s) = completed s"
  "busy_lauk (release r pid s) = busy_lauk s"
  "busy_angkut (release r pid s) = busy_angkut s"
  "busy_nasi (release r pid s) = busy_nasi s"
  "start_time (release r pid s) = start_time s"
  "random (release r pid s) = random s"
  "cfg (store_put st pid it s) = cfg s"
  "now (store_put st pid it s) = now s"
  "data (store_put st pid it s) = data s"
  "completed (store_put st pid it s) = completed s"
  "busy_lauk (store_put st pid it s) = busy_lauk s"
  "busy_angkut (store_put st pid it s) = busy_angkut s"
  "busy_nasi (store_put st pid it s) = busy_nasi s"
  "start_time (store_put st pid it s) = start_time s"
  "random (store_put st pid it s) = random s"
  "cfg (trigger_get st s) = cfg s"
  "now (trigger_get st s) = now s"
  "data (trigger_get st s) = data s"
  "completed (trigger_get st s) = completed s"
  "busy_lauk (trigger_get st s) = busy_lauk s"
  "busy_angkut (trigger_get st s) = busy_angkut s"
  "busy_nasi (trigger_get st s) = busy_nasi s"
  "start_time (trigger_get st s) = start_time s"
  "random (trigger_get st s) = random s"
  "cfg (store_get st pid s) = cfg s"
  "now (store_get st pid s) = now s"
  "data (store_get st pid s) = data s"
  "completed (store_get st pid s) = completed s"
  "busy_lauk (store_get st pid s) = busy_lauk s"
  "busy_angkut (store_get st pid s) = busy_angkut s"
  "busy_nasi (store_get st pid s) = busy_nasi s"
  "start_time (store_get st pid s) = start_time s"
  "random (store_get st pid s) = random s"
  "cfg (set_proc pid q s) = cfg s"
  "now (set_proc pid q s) = now s"
  "data (set_proc pid q s) = data s"
  "completed (set_proc pid q s) = completed s"
  "busy_lauk (set_proc pid q s) = busy_lauk s"
  "busy_angkut (set_proc pid q s) = busy_angkut s"
  "busy_nasi (set_proc pid q s) = busy_nasi s"
  "start_time (set_proc pid q s) = start_time s"
  "random (set_proc pid q s) = random s"
  "cfg (spawn q s) = cfg s"
  "now (spawn q s) = now s"
  "data (spawn q s) = data s"
  "completed (spawn q s) = completed s"
  "busy_lauk (spawn q s) = busy_lauk s"
  "busy_angkut (spawn q s) = busy_angkut s"
  "busy_nasi (spawn q s) = busy_nasi s"
  "start_time (spawn q s) = start_time s"
  "random (spawn q s) = random s"
  "cfg (finish pid s) = cfg s"
  "now (finish pid s) = now s"
  "data (finish pid s) = data s"
  "completed (finish pid s) = completed s"
  "busy_lauk (finish pid s) = busy_lauk s"
  "busy_angkut (finish pid s) = busy_angkut s"
  "busy_nasi (finish pid s) = busy_nasi s"
  "start_time (finish pid s) = start_time s"
  "random (finish pid s) = random s"
  "cfg (fail pid e s) = cfg s"
  "now (fail pid e s) = now s"
  "data (fail pid e s) = data s"
  "completed (fail pid e s) = completed s"
  "busy_lauk (fail pid e s) = busy_lauk s"
  "busy_angkut (fail pid e s) = busy_angkut s"
  "busy_nasi (fail pid e s) = busy_nasi s"
  "start_time (fail pid e s) = start_time s"
  "random (fail pid e s) = random s"
  "cfg (serve r pid t q s) = cfg s"
  "now (serve r pid t q s) = now s"
  "data (serve r pid t q s) = data s"
  "completed (serve r pid t q s) = completed s"
  "busy_lauk (serve r pid t q s) = busy_lauk s"
  "busy_angkut (serve r pid t q s) = busy_angkut s"
  "busy_nasi (serve r pid t q s) = busy_nasi s"
  "start_time (serve r pid t q s) = start_time s"
  "random (serve r pid t q s) = random s"
  by (simp_all add: prim_defs split: res_id.splits store_id.splits list.splits)

lemma frame_procs [simp]:
  "procs (schedule ev p d s) = procs s"
  "procs (set_res r v s) = procs s"
  "procs (set_store st w s) = procs s"
  "procs (trigger_put r s) = procs s"
  "procs (request r pid s) = procs s"
  "procs (release r pid s) = procs s"
  "procs (store_put st pid it s) = procs s"
  "procs (trigger_get st s) = procs s"
  "procs (store_get st pid s) = procs s"
  by (simp_all add: prim_defs split: res_id.splits store_id.splits list.splits)

lemma frame_stores [simp]:
  "antrian_lauk (schedule ev p d s) = antrian_lauk s"
  "antrian_nasi (schedule ev p d s) = antrian_nasi s"
  "antrian_lauk (set_res r v s) = antrian_lauk s"
  "antrian_nasi (set_res r v s) = antrian_nasi s"
  "antrian_lauk (trigger_put r s) = antrian_lauk s"
  "antrian_nasi (trigger_put r s) = antrian_nasi s"
  "antrian_lauk (request r pid s) = antrian_lauk s"
  "antrian_nasi (request r pid s) = antrian_nasi s"
  "antrian_lauk (release r pid s) = antrian_lauk s"
  "antrian_nasi (release r pid s) = antrian_nasi s"
  "antrian_lauk (set_proc pid q s) = antrian_lauk s"
  "antrian_nasi (set_proc pid q s) = antrian_nasi s"
  "antrian_lauk (spawn q s) = antrian_lauk s"
  "antrian_nasi (spawn q s) = antrian_nasi s"
  "antrian_lauk (finish pid s) = antrian_lauk s"
  "antrian_nasi (finish pid s) = antrian_nasi s"
  "antrian_lauk (fail pid e s) = antrian_lauk s"
  "antrian_nasi (fail pid e s) = antrian_nasi s"
  "antrian_lauk (serve r pid t q s) = antrian_lauk s"
  "antrian_nasi (serve r pid t q s) = antrian_nasi s"
  by (simp_all add: prim_defs split: res_id.splits store_id.splits list.splits)

lemma frame_resources [simp]:
  "petugas_lauk (schedule ev p d s) = petugas_lauk s"
  "petugas_angkut (schedule ev p d s) = petugas_angkut s"
  "petugas_nasi (schedule ev p d s) = petugas_nasi s"
  "petugas_lauk (set_store st w s) = petugas_lauk s"
  "petugas_angkut (set_store st w s) = petugas_angkut s"
  "petugas_nasi (set_store st w s) = petugas_nasi s"
  "petugas_lauk (store_put st pid it s) = petugas_lauk s"
  "petugas_angkut (store_put st pid it s) = petugas_angkut s"
  "petugas_nasi (store_put st pid it s) = petugas_nasi s"
  "petugas_lauk (trigger_get st s) = petugas_lauk s"
  "petugas_angkut (trigger_get st s) = petugas_angkut s"
  "petugas_nasi (trigger_get st s) = petugas_nasi s"
  "petugas_lauk (store_get st pid s) = petugas_lauk s"
  "petugas_angkut (store_get st pid s) = petugas_angkut s"
  "petugas_nasi (store_get st pid s) = petugas_nasi s"
  "petugas_lauk (set_proc pid q s) = petugas_lauk s"
  "petugas_angkut (set_proc pid q s) = petugas_angkut s"
  "petugas_nasi (set_proc pid q s) = petugas_nasi s"
  "petugas_lauk (spawn q s) = petugas_lauk s"
  "petugas_angkut (spawn q s) = petugas_angkut s"
  "petugas_nasi (spawn q s) = petugas_nasi s"
  "petugas_lauk (finish pid s) = petugas_lauk s"
  "petugas_angkut (finish pid s) = petugas_angkut s"
  "petugas_nasi (finish pid s) = petugas_nasi s"
  "petugas_lauk (fail pid e s) = petugas_lauk s"
  "petugas_angkut (fail pid e s) = petugas_angkut s"
  "petugas_nasi (fail pid e s) = petugas_nasi s"
  by (simp_all add: prim_defs split: res_id.splits store_id.splits list.splits)

lemma procs_set_proc [simp]: "procs (set_proc pid q s) = (procs s)[pid := q]"
  by (simp add: set_proc_def)

lemma procs_spawn [simp]: "procs (spawn q s) = procs s @ [q]"
  by (simp add: spawn_def schedule_def)

lemma procs_finish [simp]: "procs (finish pid s) = (procs s)[pid := Done]"
  by (simp add: finish_def schedule_def set_proc_def)

lemma procs_fail [simp]: "procs (fail pid e s) = (procs s)[pid := Done]"
  by (simp add: fail_def schedule_def set_proc_def)

lemma procs_serve [simp]:
  "procs (serve r pid t q s) = (procs s)[pid := (if t < 0 then Done else q)]"
  by (simp add: serve_def)

lemmas handler_defs = generate_from_def angkut_request_def angkut_drain_def angkut_loop_def
  angkut_put_def nasi_loop_def

lemma frame_handlers [simp]:
  "cfg (generate_from i pid s) = cfg s" "now (generate_from i pid s) = now s"
  "data (generate_from i pid s) = data s" "completed (generate_from i pid s) = completed s"
  "cfg (angkut_request b pid s) = cfg s" "now (angkut_request b pid s) = now s"
  "data (angkut_request b pid s) = data s" "completed (angkut_request b pid s) = completed s"
  "cfg (angkut_drain b n pid s) = cfg s" "now (angkut_drain b n pid s) = now s"
  "data (angkut_drain b n pid s) = data s" "completed (angkut_drain b n pid s) = completed s"
  "cfg (angkut_loop pid s) = cfg s" "now (angkut_loop pid s) = now s"
  "data (angkut_loop pid s) = data s" "completed (angkut_loop pid s) = completed s"
  "cfg (angkut_put b pid s) = cfg s" "now (angkut_put b pid s) = now s"
  "data (angkut_put b pid s) = data s" "completed (angkut_put b pid s) = completed s"
  "cfg (nasi_loop pid s) = cfg s" "now (nasi_loop pid s) = now s"
  "data (nasi_loop pid s) = data s" "completed (nasi_loop pid s) = completed s"
  by (simp_all add: handler_defs split: nat.splits list.splits sum.splits prod.splits)

lemma resume_cfg [simp]: "cfg (resume pid v s) = cfg s"
  by (simp add: resume_def Let_def split: proc.splits option.splits prod.splits)

lemma resume_now [simp]: "now (resume pid v s) = now s"
  by (simp add: resume_def Let_def split: proc.splits option.splits prod.splits)

lemma resume_completed_data:
  "completed s = int (length (data s)) \<Longrightarrow>
   completed (resume pid v s) = int (length (data (resume pid v s)))"
  by (simp add: resume_def Let_def split: proc.splits option.splits prod.splits)

lemma step_completed_data:
  "completed s = int (length (data s)) \<Longrightarrow> step s = Inr s' \<Longrightarrow>
   completed s' = int (length (data s'))"
  by (auto simp: step_def fire_def resume_completed_data
      split: list.splits event.splits option.splits)

lemma start_completed_data [simp]:
  "completed (start s) = completed s" "data (start s) = data s"
  by (simp_all add: start_def)

lemma reachable_completed_data:
  "reachable s0 s \<Longrightarrow> completed s0 = int (length (data s0)) \<Longrightarrow>
   completed s = int (length (data s))"
  by (induction rule: reachable.induct) (auto intro: step_completed_data)

lemma env_run_reachable_aux:
  assumes "env_run s1 = Some r"
  shows "reachable s0 s1 \<longrightarrow> (\<forall>s'. r = Inr s' \<longrightarrow> reachable s0 s')"
proof (rule env_run.raw_induct
    [where P = "\<lambda>s1 r. reachable s0 s1 \<longrightarrow> (\<forall>s'. r = Inr s' \<longrightarrow> reachable s0 s')", OF _ assms])
  fix f s1 r
  assume "\<And>s1 r. f s1 = Some r \<Longrightarrow>
            reachable s0 s1 \<longrightarrow> (\<forall>s'. r = Inr s' \<longrightarrow> reachable s0 s')"
    and "(if queue s1 = [] then Some (Inr s1)
          else case step s1 of Inl e \<Rightarrow> Some (Inl e) | Inr s' \<Rightarrow> f s') = Some r"
  then show "reachable s0 s1 \<longrightarrow> (\<forall>s'. r = Inr s' \<longrightarrow> reachable s0 s')"
    by (auto split: if_splits sum.splits intro: reachable_step)
qed

lemma env_run_reachable:
  "env_run s1 = Some (Inr s') \<Longrightarrow> reachable s0 s1 \<Longrightarrow> reachable s0 s'"
  using env_run_reachable_aux by blast

lemma env_run_final_aux:
  assumes "env_run s1 = Some r"
  shows "\<forall>s'. r = Inr s' \<longrightarrow> queue s' = []"
proof (rule env_run.raw_induct
    [where P = "\<lambda>s1 r. \<forall>s'. r = Inr s' \<longrightarrow> queue s' = []", OF _ assms])
  fix f s1 r
  assume "\<And>s1 r. f s1 = Some r \<Longrightarrow> \<forall>s'. r = Inr s' \<longrightarrow> queue s' = []"
    and "(if queue s1 = [] then Some (Inr s1)
          else case step s1 of Inl e \<Rightarrow> Some (Inl e) | Inr s' \<Rightarrow> f s') = Some r"
  then show "\<forall>s'. r = Inr s' \<longrightarrow> queue s' = []"
    by (auto split: if_splits sum.splits)
qed

lemma env_run_final: "env_run s1 = Some (Inr s') \<Longrightarrow> queue s' = []"
  using env_run_final_aux by blast

section \<open>The completed counter\<close>

text \<open>
  C10. In every scheduler state of a run the completed counter equals the number of rows
  collected so far: the finish stage appends a row and increments the counter in the same
  resumption, and nothing else changes either.
\<close>

theorem completed_counts_rows:
  "init seed c g0 = Inr s0 \<Longrightarrow> reachable s0 s \<Longrightarrow> completed s = int (length (data s))"
  by (drule init_InrD(1)) (simp add: reachable_completed_data)

theorem completed_counts_rows_witness:
  "\<exists>s0 s. init seed0 scenario rng0 = Inr s0 \<and> reachable s0 s \<and>
     data s = scenario_rows \<and> completed s = int (length (data s))"
proof -
  obtain s0 s where h: "init seed0 scenario rng0 = Inr s0" "env_run (start s0) = Some (Inr s)"
    "data s = scenario_rows"
    using scenario_final [of seed0 rng0] by blast
  have r: "reachable s0 s"
    using env_run_reachable [OF h(2) reachable_start] by simp
  show ?thesis
    using completed_counts_rows [OF h(1) r] h r by blast
qed

section \<open>Process slots\<close>

lemma slots_ok_update:
  assumes "slots_ok s" and "procs s' = (procs s)[pid := q]" and "fits pid q"
  shows "slots_ok s'"
proof -
  have "fits j (procs s' ! j)" if "j < length (procs s')" for j
  proof (cases "j = pid")
    case True
    with that assms show ?thesis by simp
  next
    case False
    with that assms show ?thesis by (simp add: slots_ok_def)
  qed
  with assms show ?thesis by (simp add: slots_ok_def)
qed

lemma slots_ok_same: "procs s' = procs s \<Longrightarrow> slots_ok s' = slots_ok s"
  by (simp add: slots_ok_def)

lemma slots_ok_spawn_update:
  assumes "slots_ok s" and "procs s' = (procs s @ [L_init i])[pid := q]"
    and "pid < length (procs s)" and "fits pid q"
  shows "slots_ok s'"
proof -
  have "fits j (procs s' ! j)" if "j < length (procs s')" for j
  proof (cases "j = pid")
    case True
    with that assms show ?thesis by simp
  next
    case False
    show ?thesis
    proof (cases "j < length (procs s)")
      case True
      with False that assms show ?thesis by (simp add: slots_ok_def nth_append)
    next
      case c: False
      with that assms have "j = length (procs s)" by simp
      with False assms show ?thesis by (auto simp: slots_ok_def fits_def)
    qed
  qed
  with assms show ?thesis by (simp add: slots_ok_def)
qed

lemma fits_angkut: "is_angkut q \<Longrightarrow> is_angkut p \<Longrightarrow> fits pid p \<Longrightarrow> fits pid q"
  by (cases p; cases q) (auto simp: fits_def split: if_splits)

lemma fits_angkut_pid: "is_angkut p \<Longrightarrow> fits pid p \<Longrightarrow> pid = 1"
  by (cases p) (auto simp: fits_def split: if_splits)

lemma fits_nasi_pid: "is_nasi p \<Longrightarrow> fits pid p \<Longrightarrow> pid = 2"
  by (cases p) (auto simp: fits_def split: if_splits)

lemma fits_Done [simp]: "fits pid Done"
  by (simp add: fits_def)

lemma procs_generate_from:
  "procs (generate_from i pid s) =
     (if int i < TOTAL_OMPRENG (cfg s) then (procs s @ [L_init i])[pid := G_loop i]
      else (procs s)[pid := Done])"
  by (simp add: generate_from_def)

lemma procs_angkut_request [simp]:
  "procs (angkut_request b pid s) = (procs s)[pid := A_req b]"
  by (simp add: angkut_request_def)

lemma procs_angkut_drain:
  "procs (angkut_drain b n pid s) =
     (procs s)[pid := (case n of 0 \<Rightarrow> A_req b | Suc k \<Rightarrow> A_get b k)]"
  by (simp add: angkut_drain_def split: nat.splits)

lemma procs_angkut_loop:
  "\<exists>q. procs (angkut_loop pid s) = (procs s)[pid := q] \<and> (is_angkut q \<or> q = Done)"
  by (auto simp: angkut_loop_def procs_angkut_drain split: sum.splits nat.splits)

lemma procs_angkut_put:
  "\<exists>q. procs (angkut_put b pid s) = (procs s)[pid := q] \<and> (is_angkut q \<or> q = Done)"
  using procs_angkut_loop by (auto simp: angkut_put_def split: list.splits)

lemma procs_nasi_loop:
  "\<exists>q. procs (nasi_loop pid s) = (procs s)[pid := q] \<and> (is_nasi q \<or> q = Done)"
  by (auto simp: nasi_loop_def)

lemma slots_ok_resume:
  assumes "slots_ok s"
  shows "slots_ok (resume pid v s)"
proof (cases "pid < length (procs s)")
  case False
  then show ?thesis using assms by (simp add: resume_def)
next
  case True
  then have f: "fits pid (procs s ! pid)"
    using assms by (simp add: slots_ok_def)
  have gen: "slots_ok (generate_from i pid s)" if "is_gen (procs s ! pid)" for i
  proof -
    from that f have p: "pid = 0" by (cases "procs s ! pid") (auto simp: fits_def split: if_splits)
    show ?thesis
    proof (cases "int i < TOTAL_OMPRENG (cfg s)")
      case c: True
      show ?thesis
        by (rule slots_ok_spawn_update [OF assms _ True, of _ i "G_loop i"])
          (simp_all add: procs_generate_from c p fits_def)
    next
      case c: False
      show ?thesis
        by (rule slots_ok_update [OF assms, of _ pid Done])
          (simp_all add: procs_generate_from c)
    qed
  qed
  show ?thesis
  proof (cases "procs s ! pid")
    case G_init
    then show ?thesis using True gen by (simp add: resume_def)
  next
    case (G_loop i)
    then show ?thesis using True gen by (simp add: resume_def)
  next
    case A_init
    then show ?thesis using True f procs_angkut_loop [of pid s]
      by (auto simp: resume_def dest: fits_angkut_pid intro!: slots_ok_update [OF assms, of _ pid] simp: fits_def)
  next
    case A_poll
    then show ?thesis using True f procs_angkut_loop [of pid s]
      by (auto simp: resume_def intro!: slots_ok_update [OF assms, of _ pid] simp: fits_def)
  next
    case (A_get b k)
    then show ?thesis using True f
      by (auto simp: resume_def procs_angkut_drain fits_def
          intro!: slots_ok_update [OF assms, of _ pid] split: option.splits nat.splits if_splits)
  next
    case (A_req b)
    then show ?thesis using True f
      by (auto simp: resume_def fits_def
          intro!: slots_ok_update [OF assms, of _ pid] split: prod.splits if_splits)
  next
    case (A_serv b t)
    then show ?thesis using True f
        procs_angkut_put [of b pid "(release RAngkut pid s)\<lparr>busy_angkut := busy_angkut (release RAngkut pid s) + t\<rparr>"]
      by (auto simp: resume_def Let_def fits_def intro!: slots_ok_update [OF assms, of _ pid])
  next
    case (A_put b)
    then show ?thesis using True f procs_angkut_put [of b pid s]
      by (auto simp: resume_def fits_def intro!: slots_ok_update [OF assms, of _ pid])
  next
    case N_init
    then show ?thesis using True f procs_nasi_loop [of pid s]
      by (auto simp: resume_def fits_def intro!: slots_ok_update [OF assms, of _ pid])
  next
    case N_poll
    then show ?thesis using True f procs_nasi_loop [of pid s]
      by (auto simp: resume_def fits_def intro!: slots_ok_update [OF assms, of _ pid])
  next
    case (N_serv it m t)
    let ?s4 = "(release RNasi pid s)\<lparr>busy_nasi := busy_nasi (release RNasi pid s) + t,
       data := data (release RNasi pid s) @
         [make_row ((release RNasi pid s)\<lparr>busy_nasi := busy_nasi (release RNasi pid s) + t\<rparr>) it m (now s)],
       completed := completed (release RNasi pid s) + 1\<rparr>"
    from N_serv show ?thesis using True f procs_nasi_loop [of pid ?s4]
      by (auto simp: resume_def Let_def fits_def intro!: slots_ok_update [OF assms, of _ pid])
  next
    case Done
    then show ?thesis using True assms by (simp add: resume_def)
  qed (use True f in \<open>auto simp: resume_def fits_def
          intro!: slots_ok_update [OF assms, of _ pid] split: prod.splits option.splits if_splits\<close>)
qed

section \<open>Timestamps\<close>

lemma stamped_mono: "stamped n it \<Longrightarrow> n \<le> m \<Longrightarrow> stamped m it"
  by (auto simp: stamped_def split: option.splits)

lemma moved_mono: "moved n it \<Longrightarrow> n \<le> m \<Longrightarrow> moved m it"
  by (auto simp: moved_def intro: stamped_mono)

lemma moved_stamped: "moved n it \<Longrightarrow> stamped n it"
  by (simp add: moved_def)

lemma list_all_stamped_mono: "list_all (stamped n) xs \<Longrightarrow> n \<le> m \<Longrightarrow> list_all (stamped m) xs"
  by (auto simp: list_all_iff intro: stamped_mono)

lemma list_all_moved_mono: "list_all (moved n) xs \<Longrightarrow> n \<le> m \<Longrightarrow> list_all (moved m) xs"
  by (auto simp: list_all_iff intro: moved_mono)

lemma proc_ok_mono: "proc_ok n p \<Longrightarrow> n \<le> m \<Longrightarrow> proc_ok m p"
  by (cases p) (auto intro: list_all_stamped_mono moved_mono)

lemma event_ok_mono: "event_ok n ev \<Longrightarrow> n \<le> m \<Longrightarrow> event_ok m ev"
  by (cases "(n, ev)" rule: event_ok.cases) (auto intro: stamped_mono moved_mono)

lemma list_all_heappush [simp]: "list_all P (heappush x q) = (P x \<and> list_all P q)"
  by (induction q) auto

lemma set_heappush [simp]: "set (heappush x q) = insert x (set q)"
  by (induction q) auto

lemma entry_less_time: "entry_less x y \<Longrightarrow> fst x \<le> fst y"
  by (cases x; cases y) auto

lemma not_entry_less_time: "\<not> entry_less x y \<Longrightarrow> fst y \<le> fst x"
  by (cases x; cases y) auto

lemma sorted_heappush:
  "sorted_wrt entry_time_le q \<Longrightarrow> sorted_wrt entry_time_le (heappush x q)"
proof (induction q)
  case Nil
  then show ?case by simp
next
  case (Cons y ys)
  show ?case
  proof (cases "entry_less x y")
    case True
    then have "fst x \<le> fst y" by (rule entry_less_time)
    with Cons.prems True show ?thesis
      by (auto simp: entry_time_le_def)
  next
    case False
    then have "fst y \<le> fst x" by (rule not_entry_less_time)
    with Cons False show ?thesis
      by (auto simp: entry_time_le_def)
  qed
qed

lemma frame_queue [simp]:
  "queue (set_res r v s) = queue s" "queue (set_store st w s) = queue s"
  "queue (set_proc pid q s) = queue s" "eid (set_res r v s) = eid s"
  "eid (set_store st w s) = eid s" "eid (set_proc pid q s) = eid s"
  by (simp_all add: set_res_def set_store_def set_proc_def split: res_id.splits store_id.splits)

lemma times_ok_cong:
  "now s' = now s \<Longrightarrow> queue s' = queue s \<Longrightarrow> procs s' = procs s \<Longrightarrow>
   antrian_lauk s' = antrian_lauk s \<Longrightarrow> antrian_nasi s' = antrian_nasi s \<Longrightarrow>
   data s' = data s \<Longrightarrow> times_ok s' = times_ok s"
  by (simp add: times_ok_def)

lemma times_ok_schedule:
  "times_ok s \<Longrightarrow> 0 \<le> d \<Longrightarrow> event_ok (now s) ev \<Longrightarrow> times_ok (schedule ev p d s)"
  by (simp add: times_ok_def schedule_def sorted_heappush entry_ok_def)

lemma list_all_update: "list_all P xs \<Longrightarrow> P x \<Longrightarrow> list_all P (xs[i := x])"
  by (auto simp: list_all_iff dest: subsetD [OF set_update_subset_insert])

lemma times_ok_set_proc:
  "times_ok s \<Longrightarrow> proc_ok (now s) q \<Longrightarrow> times_ok (set_proc pid q s)"
  by (simp add: times_ok_def set_proc_def list_all_update)

lemma event_ok_simple [simp]:
  "event_ok n (EInit pid)" "event_ok n (ETimeout pid)" "event_ok n (ERequest r pid)"
  "event_ok n (ERelease r)" "event_ok n (EPut st pid)" "event_ok n (EProcess pid e)"
  by simp_all

lemma times_ok_spawn:
  "times_ok s \<Longrightarrow> proc_ok (now s) q \<Longrightarrow> times_ok (spawn q s)"
  by (simp add: times_ok_def spawn_def schedule_def sorted_heappush entry_ok_def)

lemma times_ok_finish: "times_ok s \<Longrightarrow> times_ok (finish pid s)"
  by (simp add: finish_def times_ok_schedule times_ok_set_proc)

lemma times_ok_fail: "times_ok s \<Longrightarrow> times_ok (fail pid e s)"
  by (simp add: fail_def times_ok_schedule times_ok_set_proc)

lemma times_ok_set_res: "times_ok (set_res r v s) = times_ok s"
  by (rule times_ok_cong) simp_all

lemma times_ok_trigger_put: "times_ok s \<Longrightarrow> times_ok (trigger_put r s)"
  by (simp add: trigger_put_def times_ok_schedule times_ok_set_res split: list.splits)

lemma times_ok_request: "times_ok s \<Longrightarrow> times_ok (request r pid s)"
  by (simp add: request_def times_ok_trigger_put times_ok_set_res)

lemma times_ok_release: "times_ok s \<Longrightarrow> times_ok (release r pid s)"
  by (simp add: release_def times_ok_schedule times_ok_set_res)

lemma times_ok_serve:
  "times_ok s \<Longrightarrow> (0 \<le> t \<longrightarrow> proc_ok (now s) q) \<Longrightarrow> times_ok (serve r pid t q s)"
  by (simp add: serve_def times_ok_fail times_ok_release times_ok_schedule times_ok_set_proc)

lemma times_ok_store_put_lauk:
  "times_ok s \<Longrightarrow> stamped (now s) it \<Longrightarrow> times_ok (store_put SLauk pid it s)"
  by (simp add: times_ok_def store_put_def schedule_def set_store_def get_store_def
      sorted_heappush entry_ok_def)

lemma times_ok_store_put_nasi:
  "times_ok s \<Longrightarrow> moved (now s) it \<Longrightarrow> times_ok (store_put SNasi pid it s)"
  by (simp add: times_ok_def store_put_def schedule_def set_store_def get_store_def
      sorted_heappush entry_ok_def)

lemma times_ok_trigger_get: "times_ok s \<Longrightarrow> times_ok (trigger_get st s)"
  by (cases st)
    (auto simp: times_ok_def trigger_get_def schedule_def set_store_def get_store_def
      sorted_heappush entry_ok_def split: list.splits)

lemma times_ok_store_get_lauk: "times_ok s \<Longrightarrow> pid = 1 \<Longrightarrow> times_ok (store_get SLauk pid s)"
  unfolding store_get_def
  by (rule times_ok_trigger_get) (simp add: times_ok_def set_store_def get_store_def)

lemma times_ok_store_get_nasi: "times_ok s \<Longrightarrow> times_ok (store_get SNasi pid s)"
  unfolding store_get_def
  by (rule times_ok_trigger_get) (simp add: times_ok_def set_store_def get_store_def)

lemma times_ok_generate_from: "times_ok s \<Longrightarrow> times_ok (generate_from i pid s)"
  by (simp add: generate_from_def times_ok_finish times_ok_set_proc times_ok_schedule
      times_ok_spawn)

lemma times_ok_angkut_request:
  "times_ok s \<Longrightarrow> list_all (stamped (now s)) b \<Longrightarrow> times_ok (angkut_request b pid s)"
  by (simp add: angkut_request_def times_ok_set_proc times_ok_request)

lemma times_ok_angkut_drain:
  "times_ok s \<Longrightarrow> list_all (stamped (now s)) b \<Longrightarrow> pid = 1 \<Longrightarrow>
   times_ok (angkut_drain b n pid s)"
  by (simp add: angkut_drain_def times_ok_angkut_request times_ok_set_proc
      times_ok_store_get_lauk split: nat.splits)

lemma times_ok_random [simp]: "times_ok (s\<lparr>random := g\<rparr>) = times_ok s"
  by (rule times_ok_cong) simp_all

lemma times_ok_angkut_loop: "times_ok s \<Longrightarrow> pid = 1 \<Longrightarrow> times_ok (angkut_loop pid s)"
  by (simp add: angkut_loop_def times_ok_finish times_ok_fail times_ok_set_proc
      times_ok_schedule times_ok_angkut_drain split: sum.splits)

lemma moved_stamp: "stamped n it \<Longrightarrow> moved n (it\<lparr>i_selesai_angkut := Some n\<rparr>)"
  by (simp add: moved_def stamped_def)

lemma times_ok_angkut_put:
  "times_ok s \<Longrightarrow> list_all (stamped (now s)) rest \<Longrightarrow> pid = 1 \<Longrightarrow>
   times_ok (angkut_put rest pid s)"
  by (cases rest)
    (simp_all add: angkut_put_def times_ok_angkut_loop times_ok_set_proc
      times_ok_store_put_nasi moved_stamp)

lemma times_ok_nasi_loop: "times_ok s \<Longrightarrow> times_ok (nasi_loop pid s)"
  by (simp add: nasi_loop_def times_ok_finish times_ok_set_proc times_ok_schedule
      times_ok_store_get_nasi)

lemma row_ok_make_row:
  "moved m it \<Longrightarrow> m \<le> n \<Longrightarrow> row_ok (make_row s it m n)"
  by (auto simp: row_ok_def make_row_def moved_def stamped_def split: option.splits)

lemma times_ok_row:
  "times_ok s \<Longrightarrow> row_ok r \<Longrightarrow>
   times_ok (s\<lparr>busy_nasi := b, data := data s @ [r], completed := k\<rparr>)"
  by (simp add: times_ok_def)

lemma times_ok_busy [simp]:
  "times_ok (s\<lparr>busy_lauk := b\<rparr>) = times_ok s"
  "times_ok (s\<lparr>busy_angkut := b\<rparr>) = times_ok s"
  by (rule times_ok_cong; simp)+

lemma times_ok_proc:
  "times_ok s \<Longrightarrow> pid < length (procs s) \<Longrightarrow> proc_ok (now s) (procs s ! pid)"
  by (simp add: times_ok_def list_all_length)

lemma times_ok_resume:
  assumes t: "times_ok s" and k: "slots_ok s"
    and v: "case v of None \<Rightarrow> True | Some it \<Rightarrow> stamped (now s) it \<and> (pid = 2 \<longrightarrow> moved (now s) it)"
  shows "times_ok (resume pid v s)"
proof (cases "pid < length (procs s)")
  case False
  then show ?thesis using t by (simp add: resume_def)
next
  case True
  have f: "fits pid (procs s ! pid)"
    using k True by (simp add: slots_ok_def)
  have p: "proc_ok (now s) (procs s ! pid)"
    using t True by (rule times_ok_proc)
  have a1: "pid = 1" if "is_angkut (procs s ! pid)"
    using that f by (rule fits_angkut_pid)
  have n2: "pid = 2" if "is_nasi (procs s ! pid)"
    using that f by (rule fits_nasi_pid)
  show ?thesis
  proof (cases "procs s ! pid")
    case G_init
    then show ?thesis using True t by (simp add: resume_def times_ok_generate_from)
  next
    case (G_loop i)
    then show ?thesis using True t by (simp add: resume_def times_ok_generate_from)
  next
    case (L_init oid)
    then show ?thesis using True t
      by (simp add: resume_def times_ok_set_proc times_ok_request)
  next
    case (L_req oid d)
    then show ?thesis using True t p
      by (simp add: resume_def times_ok_serve split: prod.splits)
  next
    case (L_serv oid d m u)
    then show ?thesis using True t p
      by (simp add: resume_def Let_def times_ok_set_proc times_ok_store_put_lauk
          times_ok_release stamped_def)
  next
    case L_put
    then show ?thesis using True t by (simp add: resume_def times_ok_finish)
  next
    case A_init
    with a1 have "pid = 1" by simp
    with A_init show ?thesis using True t by (simp add: resume_def times_ok_angkut_loop)
  next
    case A_poll
    with a1 have "pid = 1" by simp
    with A_poll show ?thesis using True t by (simp add: resume_def times_ok_angkut_loop)
  next
    case (A_get b n)
    with a1 have "pid = 1" by simp
    with A_get show ?thesis using True t p v
      by (simp add: resume_def times_ok_angkut_drain times_ok_fail split: option.splits)
  next
    case (A_req b)
    then show ?thesis using True t p
      by (simp add: resume_def times_ok_serve split: prod.splits)
  next
    case (A_serv b u)
    with a1 have "pid = 1" by simp
    with A_serv show ?thesis using True t p
      by (simp add: resume_def Let_def times_ok_angkut_put times_ok_release)
  next
    case (A_put b)
    with a1 have "pid = 1" by simp
    with A_put show ?thesis using True t p
      by (simp add: resume_def times_ok_angkut_put)
  next
    case N_init
    then show ?thesis using True t by (simp add: resume_def times_ok_nasi_loop)
  next
    case N_poll
    then show ?thesis using True t by (simp add: resume_def times_ok_nasi_loop)
  next
    case N_get
    with n2 have "pid = 2" by simp
    with N_get show ?thesis using True t v
      by (simp add: resume_def times_ok_set_proc times_ok_request times_ok_fail
          split: option.splits)
  next
    case (N_req it)
    then show ?thesis using True t p
      by (simp add: resume_def times_ok_serve split: prod.splits)
  next
    case (N_serv it m u)
    let ?s1 = "release RNasi pid s"
    have 1: "times_ok ?s1"
      using t by (rule times_ok_release)
    have "row_ok (make_row x it m (now s))" for x
      using p N_serv by (simp add: row_ok_make_row)
    then have "list_all row_ok (data s @ [make_row x it m (now s)])" for x
      using t by (simp add: times_ok_def)
    then have "times_ok (?s1\<lparr>busy_nasi := b, data := data s @ [make_row x it m (now s)],
        completed := j\<rparr>)" for b j x
      using 1 by (simp add: times_ok_def)
    then show ?thesis using N_serv True
      by (simp add: resume_def Let_def times_ok_nasi_loop)
  next
    case Done
    then show ?thesis using True t by (simp add: resume_def)
  qed
qed

lemma times_ok_pop:
  assumes "times_ok s" and "queue s = (t, p, i, ev) # q"
  shows "times_ok (s\<lparr>now := t, queue := q\<rparr>)" and "event_ok t ev" and "now s \<le> t"
proof -
  from assms have le: "now s \<le> t" and ev: "event_ok (now s) ev"
    by (simp_all add: times_ok_def entry_ok_def)
  show "now s \<le> t" by (rule le)
  show "event_ok t ev" using ev le by (rule event_ok_mono)
  have "entry_ok t e" if "e \<in> set q" for e
  proof -
    from that assms have "entry_ok (now s) e" and "t \<le> fst e"
      by (auto simp: times_ok_def list_all_iff entry_time_le_def)
    with le show ?thesis
      by (cases e) (auto simp: entry_ok_def intro: event_ok_mono)
  qed
  then have "list_all (entry_ok t) q"
    by (simp add: list_all_iff)
  moreover have "list_all (proc_ok t) (procs s)"
    using assms le by (auto simp: times_ok_def list_all_iff intro: proc_ok_mono)
  ultimately show "times_ok (s\<lparr>now := t, queue := q\<rparr>)"
    using assms le
    by (auto simp: times_ok_def intro: list_all_stamped_mono list_all_moved_mono)
qed

section \<open>The invariants hold in every scheduler state\<close>

lemma slots_ok_trigger [simp]:
  "slots_ok (trigger_put r s) = slots_ok s" "slots_ok (trigger_get st s) = slots_ok s"
  by (rule slots_ok_same, simp)+

lemma slots_ok_fire:
  assumes k: "slots_ok s" and f: "fire ev s = Inr s'"
  shows "slots_ok s'"
proof (cases ev)
  case (EInit pid)
  with f have "s' = resume pid None s" by (simp add: fire_def)
  then show ?thesis using k by (simp add: slots_ok_resume)
next
  case (ETimeout pid)
  with f have "s' = resume pid None s" by (simp add: fire_def)
  then show ?thesis using k by (simp add: slots_ok_resume)
next
  case (ERequest r pid)
  with f have "s' = resume pid None s" by (simp add: fire_def)
  then show ?thesis using k by (simp add: slots_ok_resume)
next
  case (ERelease r)
  with f have "s' = trigger_put r s" by (simp add: fire_def)
  then show ?thesis using k by simp
next
  case (EPut st pid)
  with f have "s' = resume pid None (trigger_get st s)" by (simp add: fire_def)
  moreover have "slots_ok (trigger_get st s)"
    using k by simp
  ultimately show ?thesis by (simp add: slots_ok_resume)
next
  case (EGet st pid it)
  with f have "s' = resume pid (Some it) s" by (simp add: fire_def)
  then show ?thesis using k by (simp add: slots_ok_resume)
next
  case (EProcess pid x)
  with f have "s' = s" by (cases x) (simp_all add: fire_def)
  then show ?thesis using k by simp
qed

lemma slots_ok_step: "slots_ok s \<Longrightarrow> step s = Inr s' \<Longrightarrow> slots_ok s'"
proof (cases "queue s")
  case Nil
  assume "slots_ok s" and "step s = Inr s'"
  with Nil show ?thesis by (simp add: step_def)
next
  case (Cons e q)
  assume k: "slots_ok s" and st: "step s = Inr s'"
  obtain t p i ev where e: "e = (t, p, i, ev)" by (cases e)
  have "slots_ok (s\<lparr>now := t, queue := q\<rparr>)"
    using k by (simp add: slots_ok_def)
  moreover have "fire ev (s\<lparr>now := t, queue := q\<rparr>) = Inr s'"
    using st Cons e by (simp add: step_def)
  ultimately show ?thesis by (rule slots_ok_fire)
qed

lemma times_ok_fire:
  assumes t1: "times_ok s" and k1: "slots_ok s" and ev: "event_ok (now s) ev"
    and f: "fire ev s = Inr s'"
  shows "times_ok s'"
proof (cases ev)
  case (EInit pid)
  with f have "s' = resume pid None s" by (simp add: fire_def)
  then show ?thesis using t1 k1 by (simp add: times_ok_resume)
next
  case (ETimeout pid)
  with f have "s' = resume pid None s" by (simp add: fire_def)
  then show ?thesis using t1 k1 by (simp add: times_ok_resume)
next
  case (ERequest r pid)
  with f have "s' = resume pid None s" by (simp add: fire_def)
  then show ?thesis using t1 k1 by (simp add: times_ok_resume)
next
  case (ERelease r)
  with f have "s' = trigger_put r s" by (simp add: fire_def)
  then show ?thesis using t1 by (simp add: times_ok_trigger_put)
next
  case (EPut st pid)
  with f have "s' = resume pid None (trigger_get st s)" by (simp add: fire_def)
  moreover have "slots_ok (trigger_get st s)"
    using k1 by simp
  moreover have "times_ok (trigger_get st s)"
    using t1 by (rule times_ok_trigger_get)
  ultimately show ?thesis by (simp add: times_ok_resume)
next
  case (EGet st pid it)
  with f have s': "s' = resume pid (Some it) s" by (simp add: fire_def)
  from EGet ev have "stamped (now s) it \<and> (pid = 2 \<longrightarrow> moved (now s) it)"
    by (cases st) (auto dest: moved_stamped)
  then show ?thesis unfolding s' using t1 k1
    by (intro times_ok_resume) simp_all
next
  case (EProcess pid x)
  with f have "s' = s" by (cases x) (simp_all add: fire_def)
  then show ?thesis using t1 by simp
qed

lemma times_ok_step:
  assumes "times_ok s" and "slots_ok s" and "step s = Inr s'"
  shows "times_ok s'"
proof (cases "queue s")
  case Nil
  with assms show ?thesis by (simp add: step_def)
next
  case (Cons e q)
  obtain t p i ev where e: "e = (t, p, i, ev)" by (cases e)
  let ?s = "s\<lparr>now := t, queue := q\<rparr>"
  have q: "queue s = (t, p, i, ev) # q"
    using Cons e by simp
  have t1: "times_ok ?s" and ev: "event_ok (now ?s) ev"
    using times_ok_pop [OF assms(1) q] by simp_all
  have k1: "slots_ok ?s"
    using assms(2) by (simp add: slots_ok_def)
  have f: "fire ev ?s = Inr s'"
    using assms(3) q by (simp add: step_def)
  show ?thesis
    by (rule times_ok_fire [OF t1 k1 ev f])
qed

lemma start_invariants:
  assumes "init seed c g0 = Inr s0"
  shows "slots_ok (start s0)" and "times_ok (start s0)"
  using init_InrD(1) [OF assms]
  by (simp_all add: start_def spawn_def schedule_def slots_ok_def times_ok_def fits_def
      entry_ok_def entry_time_le_def new_store_def URGENT_def nth_Cons split: nat.splits)

lemma reachable_invariants:
  assumes "init seed c g0 = Inr s0" and "reachable s0 s"
  shows "slots_ok s \<and> times_ok s"
  using assms(2)
proof (induction rule: reachable.induct)
  case reachable_start
  show ?case using start_invariants [OF assms(1)] by simp
next
  case (reachable_step s s')
  then show ?case by (auto intro: slots_ok_step times_ok_step)
qed

section \<open>Order of the timestamps\<close>

text \<open>
  C4. In every scheduler state of a run, every row collected so far has its timestamps in
  order: arrival (\<open>selesai_nasi - total_waktu\<close>) \<open>\<le>\<close> \<open>mulai_lauk\<close> \<open>\<le>\<close>
  \<open>selesai_lauk\<close> \<open>\<le>\<close> \<open>mulai_nasi\<close> \<open>\<le>\<close> \<open>selesai_nasi\<close>; and the unit the finish
  stage is serving carries a \<open>selesai_angkut\<close> that lies between its \<open>selesai_lauk\<close> and
  its \<open>mulai_nasi\<close> (the row drops that key).
\<close>

theorem timestamps_ordered:
  "init seed c g0 = Inr s0 \<Longrightarrow> reachable s0 s \<Longrightarrow>
   (\<forall>r \<in> set (data s).
      r_selesai_nasi r - r_total_waktu r \<le> r_mulai_lauk r \<and>
      r_mulai_lauk r \<le> r_selesai_lauk r \<and> r_selesai_lauk r \<le> r_mulai_nasi r \<and>
      r_mulai_nasi r \<le> r_selesai_nasi r) \<and>
   (\<forall>pid it mulai_nasi t.
      pid < length (procs s) \<longrightarrow> procs s ! pid = N_serv it mulai_nasi t \<longrightarrow>
      (\<exists>a. i_selesai_angkut it = Some a \<and> i_datang it \<le> i_mulai_lauk it \<and>
         i_mulai_lauk it \<le> i_selesai_lauk it \<and> i_selesai_lauk it \<le> a \<and>
         a \<le> mulai_nasi \<and> mulai_nasi \<le> now s))"
proof -
  assume i: "init seed c g0 = Inr s0" and r: "reachable s0 s"
  have t: "times_ok s"
    using reachable_invariants [OF i r] by simp
  have "\<forall>r \<in> set (data s). row_ok r"
    using t by (simp add: times_ok_def list_all_iff)
  moreover have "\<exists>a. i_selesai_angkut it = Some a \<and> i_datang it \<le> i_mulai_lauk it \<and>
         i_mulai_lauk it \<le> i_selesai_lauk it \<and> i_selesai_lauk it \<le> a \<and>
         a \<le> m \<and> m \<le> now s"
    if "pid < length (procs s)" and "procs s ! pid = N_serv it m u" for pid it m u
    using times_ok_proc [OF t that(1)] that(2)
    by (auto simp: moved_def stamped_def)
  ultimately show ?thesis
    by (simp add: row_ok_def)
qed

theorem timestamps_ordered_witness:
  "\<exists>s0 s. init seed0 scenario rng0 = Inr s0 \<and> reachable s0 s \<and>
     data s = scenario_rows \<and>
     (\<forall>r \<in> set (data s).
        r_selesai_nasi r - r_total_waktu r \<le> r_mulai_lauk r \<and>
        r_mulai_lauk r \<le> r_selesai_lauk r \<and> r_selesai_lauk r \<le> r_mulai_nasi r \<and>
        r_mulai_nasi r \<le> r_selesai_nasi r)"
proof -
  obtain s0 s where h: "init seed0 scenario rng0 = Inr s0" "env_run (start s0) = Some (Inr s)"
    "data s = scenario_rows"
    using scenario_final [of seed0 rng0] by blast
  have r: "reachable s0 s"
    using env_run_reachable [OF h(2) reachable_start] by simp
  show ?thesis
    using timestamps_ordered [OF h(1) r] h r by blast
qed


section \<open>Forming a batch\<close>


lemma rng_ok_drawn [simp]: "rng_ok (g\<lparr>drawn := d\<rparr>) = rng_ok g"
  by (simp add: rng_ok_def)



lemma store_lauk_frames [simp]:
  "antrian_lauk (store_put SNasi pid it s) = antrian_lauk s"
  "antrian_lauk (store_get SNasi pid s) = antrian_lauk s"
  "antrian_lauk (trigger_get SNasi s) = antrian_lauk s"
  "antrian_lauk (store_put SLauk pid it s) =
     (antrian_lauk s)\<lparr>items := items (antrian_lauk s) @ [it]\<rparr>"
  by (simp_all add: prim_defs split: list.splits)























section \<open>Batch sizes\<close>



end
